theory Spec2Isabelle
  imports Main "HOL-Library.AList"
begin

section \<open>Data model\<close>

text \<open>
  The Go package \<^verbatim>\<open>zerrors\<close> builds error values \<^verbatim>\<open>*Error[T]\<close> by mutating a struct
  through a pointer, and links them into chains through the field \<^verbatim>\<open>wrappedErr\<close>.
  Pointers are addresses into an explicit store, so that two references to one node
  see the same mutations.  An address that the store does not map stands for the nil
  pointer of type \<^verbatim>\<open>*Error[T]\<close>: reading a field through it panics.
\<close>

type_synonym addr = nat

text \<open>The type argument \<^verbatim>\<open>T\<close> of \<^verbatim>\<open>Error[T]\<close>.  Go compares dynamic types by
  identity; each code type of a program has one identifier here, and two
  identifiers are equal exactly when they name the same type.\<close>

type_synonym code_type = string

text \<open>
  Values of Go's \<^verbatim>\<open>any\<close> as the data map and the log attributes hold them, among
  them the two kinds that \<^verbatim>\<open>slog\<close> turns into a group: a slice \<^verbatim>\<open>[]slog.Attr\<close> and a
  \<^verbatim>\<open>slog.Value\<close>.  A \<^verbatim>\<open>slog.Value\<close> is a string, any other Go value, or a group of
  attributes (key and value).
\<close>

datatype any =
  AnyNil
| AnyInt int
| AnyString string
| AnyStrings "string list"
| AnyAttrs "(string \<times> slog_Value) list"
| AnySlogValue slog_Value
and slog_Value =
  StringValue string
| AnyValue any
| GroupValue "(string \<times> slog_Value) list"

text \<open>
  The methods of the code types.  A code type is any type with underlying type
  \<^verbatim>\<open>string\<close> and may have a method \<^verbatim>\<open>Format\<close>, \<^verbatim>\<open>Error\<close> or \<^verbatim>\<open>String\<close>; the verb \<^verbatim>\<open>%s\<close> of
  \<^verbatim>\<open>fmt\<close> then prints what that method yields, and the plain string otherwise.  The
  table gives, for each code type, the text its method yields for a code, and
  \<open>None\<close> for a code type without such a method.
\<close>

type_synonym fmt_methods = "code_type \<Rightarrow> (string \<Rightarrow> string) option"

definition fmt_s :: "fmt_methods \<Rightarrow> code_type \<Rightarrow> string \<Rightarrow> string" where
  "fmt_s F T c = (case F T of None \<Rightarrow> c | Some f \<Rightarrow> f c)"

text \<open>
  A value of the interface type \<^verbatim>\<open>error\<close>:
  \<^item> \<open>Nil\<close>, the nil interface value;
  \<^item> \<open>ZErr T a\<close>, a pointer \<^verbatim>\<open>*Error[T]\<close> to the node at address \<open>a\<close>;
  \<^item> \<open>Foreign m ts lv c\<close>, an error of any other type: its message \<open>m\<close>, the result \<open>ts\<close>
    of its method \<^verbatim>\<open>GetTags() []string\<close> when it has one, the result \<open>lv\<close> of its method
    \<^verbatim>\<open>LogValue() slog.Value\<close> when it has one, and what its \<^verbatim>\<open>Unwrap() error\<close> returns
    (\<open>Nil\<close> also when it has no such method).  It has no method \<^verbatim>\<open>As\<close> or \<^verbatim>\<open>Is\<close>.  The
    errors of \<^verbatim>\<open>fmt.Errorf\<close> are foreign errors without \<^verbatim>\<open>GetTags\<close> and \<^verbatim>\<open>LogValue\<close>.
\<close>

datatype error =
  Nil
| ZErr code_type addr
| Foreign string "string list option" "slog_Value option" error

text \<open>\<^verbatim>\<open>stackFrame\<close> and \<^verbatim>\<open>stack\<close> of stack.go; the fields \<^verbatim>\<open>pc\<close>, \<^verbatim>\<open>file\<close>,
  \<^verbatim>\<open>function\<close> and \<^verbatim>\<open>line\<close> carry the prefix \<open>frame_\<close>.\<close>

record stackFrame =
  frame_pc :: nat
  frame_file :: string
  frame_function :: string
  frame_line :: int

record stack =
  frames :: "stackFrame list"

text \<open>
  The struct \<^verbatim>\<open>Error[T]\<close>.  The set \<^verbatim>\<open>*hashset.Set[string]\<close> is a list without
  duplicates and the map \<^verbatim>\<open>map[string]any\<close> an association list with unique keys; the
  order of both lists stands for Go's unspecified iteration order.  The stack is
  \<open>None\<close> for the nil pointer \<^verbatim>\<open>*stack\<close>.
\<close>

record ErrorNode =
  code :: string
  wrappedErr :: error
  tags :: "string list"
  data :: "(string \<times> any) list"
  stack :: "stack option"

type_synonym store = "addr \<Rightarrow> ErrorNode option"

text \<open>The only run-time failure of the package: a nil pointer dereference.\<close>

datatype panic = NilDeref

type_synonym 'a result = "panic + 'a"

section \<open>The set library\<close>

text \<open>\<^verbatim>\<open>hashset.Set\<close>: \<^verbatim>\<open>Add\<close> inserts each item, \<^verbatim>\<open>Contains\<close> holds when every item is a
  member (so for no items at all), \<^verbatim>\<open>Values\<close> lists the members, \<^verbatim>\<open>Empty\<close> tests for size 0.\<close>

fun hashset_Add :: "string list \<Rightarrow> string list \<Rightarrow> string list" where
  "hashset_Add s [] = s"
| "hashset_Add s (t # ts) = hashset_Add (if t \<in> set s then s else s @ [t]) ts"

fun hashset_Contains :: "string list \<Rightarrow> string list \<Rightarrow> bool" where
  "hashset_Contains s [] = True"
| "hashset_Contains s (t # ts) = (if t \<notin> set s then False else hashset_Contains s ts)"

definition hashset_Values :: "string list \<Rightarrow> string list" where
  "hashset_Values s = s"

definition hashset_Empty :: "string list \<Rightarrow> bool" where
  "hashset_Empty s = (length s = 0)"

section \<open>Stack rendering (stack.go)\<close>

text \<open>The verb \<^verbatim>\<open>%d\<close> of \<^verbatim>\<open>fmt.Sprintf\<close> on an \<^verbatim>\<open>int\<close>.\<close>

fun fmt_nat :: "nat \<Rightarrow> string" where
  "fmt_nat n =
     (if n < 10 then [''0123456789'' ! n]
      else fmt_nat (n div 10) @ [''0123456789'' ! (n mod 10)])"

declare fmt_nat.simps [simp del]

definition fmt_d :: "int \<Rightarrow> string" where
  "fmt_d i = (if i < 0 then CHR ''-'' # fmt_nat (nat (- i)) else fmt_nat (nat i))"

definition stackFrame_String :: "stackFrame \<Rightarrow> string" where
  "stackFrame_String f =
     (if frame_function f \<noteq> ''''
      then frame_file f @ '':'' @ fmt_d (frame_line f) @ '' '' @ frame_function f @ ''()''
      else frame_file f @ '':'' @ fmt_d (frame_line f))"

fun stack_String_loop :: "string \<Rightarrow> stackFrame list \<Rightarrow> string" where
  "stack_String_loop sb [] = sb"
| "stack_String_loop sb (frame # rest) =
     stack_String_loop (sb @ (CHR 0x0A # ''    at '') @ stackFrame_String frame) rest"

definition stack_String :: "stack \<Rightarrow> string" where
  "stack_String s = stack_String_loop [] (frames s)"

section \<open>Construction and builder methods\<close>

text \<open>
  \<^verbatim>\<open>New\<close>.  The address \<open>a\<close> is the one Go's allocator returns for the new struct, which
  no live pointer holds; \<open>st\<close> is what \<^verbatim>\<open>captureStack(1)\<close> returned, \<open>None\<close> when the runtime
  reported no frames.  The result of \<^verbatim>\<open>New[T]\<close> is the pointer \<open>a\<close>, and \<open>ZErr T a\<close> once
  it is used as an \<^verbatim>\<open>error\<close>.
\<close>

definition New :: "store \<Rightarrow> addr \<Rightarrow> string \<Rightarrow> stack option \<Rightarrow> store" where
  "New h a c st =
     h(a \<mapsto> \<lparr>code = c, wrappedErr = Nil, tags = [], data = [], stack = st\<rparr>)"

definition Error_Tags :: "store \<Rightarrow> addr \<Rightarrow> string list \<Rightarrow> store result" where
  "Error_Tags h e ts =
     (case h e of
        None \<Rightarrow> Inl NilDeref
      | Some n \<Rightarrow> Inr (h(e \<mapsto> n\<lparr>tags := hashset_Add (tags n) ts\<rparr>)))"

definition Error_HasTags :: "store \<Rightarrow> addr \<Rightarrow> string list \<Rightarrow> bool result" where
  "Error_HasTags h e ts =
     (case h e of
        None \<Rightarrow> Inl NilDeref
      | Some n \<Rightarrow> Inr (hashset_Contains (tags n) ts))"

definition Error_GetTags :: "store \<Rightarrow> addr \<Rightarrow> string list result" where
  "Error_GetTags h e =
     (case h e of
        None \<Rightarrow> Inl NilDeref
      | Some n \<Rightarrow> Inr (hashset_Values (tags n)))"

definition Error_With :: "store \<Rightarrow> addr \<Rightarrow> string \<Rightarrow> any \<Rightarrow> store result" where
  "Error_With h e k v =
     (case h e of
        None \<Rightarrow> Inl NilDeref
      | Some n \<Rightarrow> Inr (h(e \<mapsto> n\<lparr>data := AList.update k v (data n)\<rparr>)))"

text \<open>\<^verbatim>\<open>Get\<close>: the two results of the map index expression; the value is nil for a
  missing key.\<close>

definition Error_Get :: "store \<Rightarrow> addr \<Rightarrow> string \<Rightarrow> (any \<times> bool) result" where
  "Error_Get h e key =
     (case h e of
        None \<Rightarrow> Inl NilDeref
      | Some n \<Rightarrow>
          (case map_of (data n) key of
             None \<Rightarrow> Inr (AnyNil, False)
           | Some val \<Rightarrow> Inr (val, True)))"

text \<open>
  \<^verbatim>\<open>WithError\<close>.  The assignment comes first.  The type assertion to
  \<^verbatim>\<open>interface{ GetTags() []string }\<close> fails on the nil interface value, succeeds on every
  \<^verbatim>\<open>*Error[T]\<close> (also on a nil pointer, where the call then panics) and on a foreign
  error that has the method.
\<close>

definition Error_WithError :: "store \<Rightarrow> addr \<Rightarrow> error \<Rightarrow> store result" where
  "Error_WithError h e err =
     (case h e of
        None \<Rightarrow> Inl NilDeref
      | Some n \<Rightarrow>
          (let h1 = h(e \<mapsto> n\<lparr>wrappedErr := err\<rparr>) in
           case err of
             Nil \<Rightarrow> Inr h1
           | ZErr T w \<Rightarrow>
               (case Error_GetTags h1 w of
                  Inl p \<Rightarrow> Inl p
                | Inr ts \<Rightarrow> Error_Tags h1 e ts)
           | Foreign m None lv c \<Rightarrow> Inr h1
           | Foreign m (Some ts) lv c \<Rightarrow> Error_Tags h1 e ts))"

text \<open>
  \<^verbatim>\<open>Errorf\<close>.  \<open>msg\<close> is the text \<^verbatim>\<open>fmt.Errorf\<close> formats and \<open>w\<close> the operand of a verb
  \<^verbatim>\<open>%w\<close> in the format, \<open>Nil\<close> when there is none.
\<close>

definition fmt_Errorf :: "string \<Rightarrow> error \<Rightarrow> error" where
  "fmt_Errorf msg w = Foreign msg None None w"

definition Error_Errorf :: "store \<Rightarrow> addr \<Rightarrow> string \<Rightarrow> error \<Rightarrow> store result" where
  "Error_Errorf h e msg w =
     (case h e of
        None \<Rightarrow> Inl NilDeref
      | Some n \<Rightarrow> Inr (h(e \<mapsto> n\<lparr>wrappedErr := fmt_Errorf msg w\<rparr>)))"

definition Error_Code :: "store \<Rightarrow> addr \<Rightarrow> string result" where
  "Error_Code h e = (case h e of None \<Rightarrow> Inl NilDeref | Some n \<Rightarrow> Inr (code n))"

definition Error_CodeString :: "store \<Rightarrow> addr \<Rightarrow> string result" where
  "Error_CodeString h e = (case h e of None \<Rightarrow> Inl NilDeref | Some n \<Rightarrow> Inr (code n))"

definition Error_Unwrap :: "store \<Rightarrow> addr \<Rightarrow> error result" where
  "Error_Unwrap h e = (case h e of None \<Rightarrow> Inl NilDeref | Some n \<Rightarrow> Inr (wrappedErr n))"

section \<open>Chain walking\<close>

text \<open>
  The methods below follow \<^verbatim>\<open>wrappedErr\<close> from node to node.  Nothing in the package
  keeps a node from being its own cause, so the walk need not end: the functions
  are partial, and \<open>None\<close> is the walk that never returns.
\<close>

text \<open>
  \<^verbatim>\<open>Error()\<close> of \<^verbatim>\<open>*Error[T]\<close>, with the receiver's type argument \<open>T\<close> and the methods
  \<open>F\<close> of the code types.  The call \<^verbatim>\<open>e.wrappedErr.Error()\<close> dispatches on the dynamic
  type of the cause.  With a cause, \<^verbatim>\<open>fmt.Sprintf("%s: %s", e.code, ...)\<close> prints the
  code through the verb \<^verbatim>\<open>%s\<close>; without one, the result is the conversion
  \<^verbatim>\<open>string(e.code)\<close>.
\<close>

partial_function (option) Error_Error ::
  "fmt_methods \<Rightarrow> store \<Rightarrow> code_type \<Rightarrow> addr \<Rightarrow> string result option" where
  "Error_Error F h T e =
     (case h e of
        None \<Rightarrow> Some (Inl NilDeref)
      | Some n \<Rightarrow>
          (case wrappedErr n of
             Nil \<Rightarrow> Some (Inr (code n))
           | Foreign m ts lv c \<Rightarrow> Some (Inr (fmt_s F T (code n) @ '': '' @ m))
           | ZErr T' w \<Rightarrow>
               Option.bind (Error_Error F h T' w)
                 (\<lambda>r. case r of
                    Inl p \<Rightarrow> Some (Inl p)
                  | Inr s \<Rightarrow> Some (Inr (fmt_s F T (code n) @ '': '' @ s)))))"

declare Error_Error.simps [code]

text \<open>
  \<^verbatim>\<open>Is\<close>, with the receiver's type argument \<open>T\<close>.  The type assertion
  \<^verbatim>\<open>target.(*Error[T])\<close> succeeds exactly on a pointer of the receiver's own type; only
  then are the two codes read.
\<close>

definition Error_Is :: "store \<Rightarrow> code_type \<Rightarrow> addr \<Rightarrow> error \<Rightarrow> bool result" where
  "Error_Is h T e target =
     (case target of
        ZErr T' t \<Rightarrow>
          (if T' \<noteq> T then Inr False
           else case h e of
                  None \<Rightarrow> Inl NilDeref
                | Some n \<Rightarrow>
                    (case h t of
                       None \<Rightarrow> Inl NilDeref
                     | Some m \<Rightarrow> Inr (code n = code m)))
      | _ \<Rightarrow> Inr False)"

text \<open>
  \<^verbatim>\<open>As\<close> of \<^verbatim>\<open>*Error[T]\<close>.  The receiver has type argument \<open>T\<close>; the target is a slot
  of type \<^verbatim>\<open>**Error[Tt]\<close>, as both callers in the package pass it.  The result
  \<open>Some p\<close> is \<^verbatim>\<open>true\<close> with the pointer \<open>p\<close> stored in the slot, \<open>None\<close> is \<^verbatim>\<open>false\<close>
  with the slot untouched.  Only a cause that has a method \<^verbatim>\<open>As\<close> (another
  \<^verbatim>\<open>*Error\<close>) is asked in turn.
\<close>

partial_function (option) Error_As ::
  "store \<Rightarrow> code_type \<Rightarrow> addr \<Rightarrow> code_type \<Rightarrow> addr option result option" where
  "Error_As h T e Tt =
     (if Tt = T then Some (Inr (Some e))
      else case h e of
             None \<Rightarrow> Some (Inl NilDeref)
           | Some n \<Rightarrow>
               (case wrappedErr n of
                  Nil \<Rightarrow> Some (Inr None)
                | Foreign m ts lv c \<Rightarrow> Some (Inr None)
                | ZErr T' w \<Rightarrow> Error_As h T' w Tt))"

declare Error_As.simps [code]

text \<open>
  \<^verbatim>\<open>errors.As\<close> of the standard library on a target slot of type \<^verbatim>\<open>**Error[Tt]\<close>: at
  each error of the chain, first the assignability of its dynamic type to the slot,
  then its method \<^verbatim>\<open>As\<close> when it has one, then \<^verbatim>\<open>Unwrap\<close>.
\<close>

partial_function (option) errors_As ::
  "store \<Rightarrow> error \<Rightarrow> code_type \<Rightarrow> addr option result option" where
  "errors_As h err Tt =
     (case err of
        Nil \<Rightarrow> Some (Inr None)
      | Foreign m ts lv c \<Rightarrow> errors_As h c Tt
      | ZErr T e \<Rightarrow>
          (if T = Tt then Some (Inr (Some e))
           else case Error_As h T e Tt of
                  None \<Rightarrow> None
                | Some (Inl p) \<Rightarrow> Some (Inl p)
                | Some (Inr (Some t)) \<Rightarrow> Some (Inr (Some t))
                | Some (Inr None) \<Rightarrow>
                    (case Error_Unwrap h e of
                       Inl p \<Rightarrow> Some (Inl p)
                     | Inr c \<Rightarrow> errors_As h c Tt)))"

declare errors_As.simps [code]

text \<open>
  The generic helper \<^verbatim>\<open>As[T, V]\<close>; the callback \<open>fn\<close> receives the pointer found.  The
  result pairs the pointer \<^verbatim>\<open>*V\<close> (\<open>None\<close> when nil) with the flag.
\<close>

definition As ::
  "store \<Rightarrow> error \<Rightarrow> code_type \<Rightarrow> (addr \<Rightarrow> 'v) \<Rightarrow> ('v option \<times> bool) result option" where
  "As h err T fn =
     (case errors_As h err T of
        None \<Rightarrow> None
      | Some (Inl p) \<Rightarrow> Some (Inl p)
      | Some (Inr (Some zerr)) \<Rightarrow> Some (Inr (Some (fn zerr), True))
      | Some (Inr None) \<Rightarrow> Some (Inr (None, False)))"

definition HasCode :: "store \<Rightarrow> error \<Rightarrow> code_type \<Rightarrow> string \<Rightarrow> bool result option" where
  "HasCode h err T c =
     (case errors_As h err T of
        None \<Rightarrow> None
      | Some (Inl p) \<Rightarrow> Some (Inl p)
      | Some (Inr (Some e)) \<Rightarrow>
          (case Error_Code h e of
             Inl p \<Rightarrow> Some (Inl p)
           | Inr c' \<Rightarrow> Some (Inr (c' = c)))
      | Some (Inr None) \<Rightarrow> Some (Inr False))"

section \<open>The log projection\<close>

text \<open>
  The constructors of \<^verbatim>\<open>slog\<close> that \<^verbatim>\<open>LogValue\<close> calls.  \<^verbatim>\<open>slog.GroupValue\<close> drops the
  attributes whose value is an empty group.  \<^verbatim>\<open>slog.AnyValue\<close> stores a string as a
  string value, turns a slice \<^verbatim>\<open>[]slog.Attr\<close> into the group of its attributes and
  returns a \<^verbatim>\<open>slog.Value\<close> as it is.
\<close>

fun isEmptyGroup :: "slog_Value \<Rightarrow> bool" where
  "isEmptyGroup (GroupValue as) = (length as = 0)"
| "isEmptyGroup _ = False"

definition slog_GroupValue :: "(string \<times> slog_Value) list \<Rightarrow> slog_Value" where
  "slog_GroupValue as = GroupValue (filter (\<lambda>a. \<not> isEmptyGroup (snd a)) as)"

fun slog_AnyValue :: "any \<Rightarrow> slog_Value" where
  "slog_AnyValue (AnyString s) = StringValue s"
| "slog_AnyValue (AnyAttrs as) = slog_GroupValue as"
| "slog_AnyValue (AnySlogValue v) = v"
| "slog_AnyValue v = AnyValue v"

definition slog_String :: "string \<Rightarrow> string \<Rightarrow> string \<times> slog_Value" where
  "slog_String key val = (key, StringValue val)"

definition slog_Any :: "string \<Rightarrow> any \<Rightarrow> string \<times> slog_Value" where
  "slog_Any key val = (key, slog_AnyValue val)"

text \<open>\<^verbatim>\<open>slog.Group("data", dataArgs...)\<close> on the key and value pairs of the data map.\<close>

definition slog_Group :: "string \<Rightarrow> (string \<times> any) list \<Rightarrow> string \<times> slog_Value" where
  "slog_Group key args = (key, slog_GroupValue (map (\<lambda>(k, v). slog_Any k v) args))"

text \<open>
  \<^verbatim>\<open>LogValue\<close>, with the receiver's type argument and the methods of the code types,
  which \<^verbatim>\<open>e.Error()\<close> needs.  The attributes are appended in the order of the
  source: code, error, data, tags, wrapped, stack.  A cause of type \<^verbatim>\<open>*Error\<close> is a
  \<^verbatim>\<open>slog.LogValuer\<close>, and so is a foreign error that has the method \<^verbatim>\<open>LogValue\<close>; any
  other cause is logged as its message.
\<close>

definition base_attrs :: "ErrorNode \<Rightarrow> string \<Rightarrow> (string \<times> slog_Value) list" where
  "base_attrs n msg =
     [slog_String ''code'' (code n), slog_String ''error'' msg]
     @ (if length (data n) > 0 then [slog_Group ''data'' (data n)] else [])
     @ (if \<not> hashset_Empty (tags n)
        then [slog_Any ''tags'' (AnyStrings (hashset_Values (tags n)))] else [])"

definition stack_attrs :: "ErrorNode \<Rightarrow> (string \<times> slog_Value) list" where
  "stack_attrs n =
     (case stack n of
        None \<Rightarrow> []
      | Some st \<Rightarrow> [slog_String ''stack'' (stack_String st)])"

partial_function (option) Error_LogValue ::
  "fmt_methods \<Rightarrow> store \<Rightarrow> code_type \<Rightarrow> addr \<Rightarrow> slog_Value result option" where
  "Error_LogValue F h T e =
     (case h e of
        None \<Rightarrow> Some (Inl NilDeref)
      | Some n \<Rightarrow>
          (case Error_Error F h T e of
             None \<Rightarrow> None
           | Some (Inl p) \<Rightarrow> Some (Inl p)
           | Some (Inr msg) \<Rightarrow>
               (case wrappedErr n of
                  Nil \<Rightarrow> Some (Inr (slog_GroupValue (base_attrs n msg @ stack_attrs n)))
                | Foreign m ts None c \<Rightarrow>
                    Some (Inr (slog_GroupValue
                      (base_attrs n msg @ [slog_String ''wrapped'' m] @ stack_attrs n)))
                | Foreign m ts (Some v) c \<Rightarrow>
                    Some (Inr (slog_GroupValue
                      (base_attrs n msg @ [slog_Any ''wrapped'' (AnySlogValue v)]
                       @ stack_attrs n)))
                | ZErr T' w \<Rightarrow>
                    Option.bind (Error_LogValue F h T' w)
                      (\<lambda>r. case r of
                         Inl p \<Rightarrow> Some (Inl p)
                       | Inr v \<Rightarrow>
                           Some (Inr (slog_GroupValue
                             (base_attrs n msg @ [slog_Any ''wrapped'' (AnySlogValue v)]
                              @ stack_attrs n)))))))"

declare Error_LogValue.simps [code]

section \<open>Calls through the interface \<^verbatim>\<open>error\<close>\<close>

text \<open>The call \<^verbatim>\<open>err.Error()\<close> on a value of the interface type: a method call on the
  nil interface value panics, a foreign error returns its message.\<close>

definition error_Error :: "fmt_methods \<Rightarrow> store \<Rightarrow> error \<Rightarrow> string result option" where
  "error_Error F h err =
     (case err of
        Nil \<Rightarrow> Some (Inl NilDeref)
      | Foreign m ts lv c \<Rightarrow> Some (Inr m)
      | ZErr T e \<Rightarrow> Error_Error F h T e)"

section \<open>Finite chains\<close>

text \<open>
  The specification speaks of chains that are finite and acyclic, every link of
  which is a live node or a foreign error.  \<open>chain h err ls\<close> holds when following
  the causes from \<open>err\<close> in the store \<open>h\<close> visits exactly the links \<open>ls\<close> and then
  reaches the nil interface value.
\<close>

datatype link =
  ZLink code_type addr ErrorNode
| FLink string "string list option" "slog_Value option"

inductive chain :: "store \<Rightarrow> error \<Rightarrow> link list \<Rightarrow> bool" for h :: store where
  chain_Nil: "chain h Nil []"
| chain_Foreign: "chain h c ls \<Longrightarrow> chain h (Foreign m ts lv c) (FLink m ts lv # ls)"
| chain_ZErr:
    "h a = Some n \<Longrightarrow> chain h (wrappedErr n) ls \<Longrightarrow> chain h (ZErr T a) (ZLink T a n # ls)"

text \<open>The first node of a chain whose code type is \<open>Tt\<close>.\<close>

fun first_of_type :: "code_type \<Rightarrow> link list \<Rightarrow> (addr \<times> ErrorNode) option" where
  "first_of_type Tt [] = None"
| "first_of_type Tt (FLink m ts lv # ls) = first_of_type Tt ls"
| "first_of_type Tt (ZLink T a n # ls) = (if T = Tt then Some (a, n) else first_of_type Tt ls)"

section \<open>Calls that change the store\<close>

text \<open>
  One call of the package that writes to the store: \<^verbatim>\<open>New\<close> at an address not in
  use, or a builder method that returns.  The query methods (\<^verbatim>\<open>HasTags\<close>,
  \<^verbatim>\<open>GetTags\<close>, \<^verbatim>\<open>Get\<close>, \<^verbatim>\<open>Code\<close>, \<^verbatim>\<open>CodeString\<close>, \<^verbatim>\<open>Error\<close>, \<^verbatim>\<open>Unwrap\<close>, \<^verbatim>\<open>Is\<close>, \<^verbatim>\<open>As\<close>,
  \<^verbatim>\<open>LogValue\<close>, \<^verbatim>\<open>HasCode\<close>) assign to no field of a node and return no store.
\<close>

inductive call :: "store \<Rightarrow> store \<Rightarrow> bool" where
  call_New: "h a = None \<Longrightarrow> call h (New h a c st)"
| call_Tags: "Error_Tags h e ts = Inr h' \<Longrightarrow> call h h'"
| call_With: "Error_With h e k v = Inr h' \<Longrightarrow> call h h'"
| call_WithError: "Error_WithError h e err = Inr h' \<Longrightarrow> call h h'"
| call_Errorf: "Error_Errorf h e msg w = Inr h' \<Longrightarrow> call h h'"

definition tags_kept :: "store \<Rightarrow> store \<Rightarrow> bool" where
  "tags_kept h h' =
     (\<forall>p n. h p = Some n \<longrightarrow> (\<exists>n'. h' p = Some n' \<and> set (tags n) \<subseteq> set (tags n')))"

text \<open>The store in which the cause of every node \<open>a\<close> is replaced by \<open>f a\<close>.\<close>

definition set_causes :: "(addr \<Rightarrow> error) \<Rightarrow> store \<Rightarrow> store" where
  "set_causes f h = (\<lambda>a. map_option (\<lambda>n. n\<lparr>wrappedErr := f a\<rparr>) (h a))"

section \<open>Example stores\<close>

text \<open>
  The chain of \<^verbatim>\<open>Test_ErrorCreation\<close>: a node of code type \<^verbatim>\<open>domainErr\<close> at address 0
  wraps a node of code type \<^verbatim>\<open>dbErr\<close> at address 1, which wraps a formatted message.
\<close>

definition creation_store :: store where
  "creation_store = Map.empty
     (0 \<mapsto> \<lparr>code = ''not_found'', wrappedErr = ZErr ''dbErr'' 1, tags = [],
            data = [(''user_id'', AnyInt 123), (''trace'', AnyString ''1234'')],
            stack = None\<rparr>,
      1 \<mapsto> \<lparr>code = ''zero_rows'', wrappedErr = Foreign ''db returned no rows'' None None Nil,
            tags = [], data = [(''req_id'', AnyInt 10)], stack = None\<rparr>)"

text \<open>
  The two nodes of \<^verbatim>\<open>Test_Tags\<close> before the outer one (address 1) wraps the inner
  one (address 0).
\<close>

definition tags_store :: store where
  "tags_store = Map.empty
     (0 \<mapsto> \<lparr>code = ''unauthorized'', wrappedErr = Nil, tags = [''permission''],
            data = [], stack = None\<rparr>,
      1 \<mapsto> \<lparr>code = ''not_found'', wrappedErr = Nil, tags = [''iam'', ''authz''],
            data = [], stack = None\<rparr>)"

text \<open>A node with code \<open>A\<close> wrapping a node with code \<open>B\<close> wrapping the plain message
  \<open>m\<close>.\<close>

definition message_store :: store where
  "message_store = Map.empty
     (0 \<mapsto> \<lparr>code = ''A'', wrappedErr = ZErr ''codeB'' 1, tags = [], data = [], stack = None\<rparr>,
      1 \<mapsto> \<lparr>code = ''B'', wrappedErr = Foreign ''m'' None None Nil, tags = [], data = [],
            stack = None\<rparr>)"

text \<open>
  Address 0 holds a node with the code \<open>outer\<close> that wraps the node at address 1;
  the nodes at addresses 1 and 2 both carry the code \<open>not_found\<close>.
\<close>

definition identity_store :: store where
  "identity_store = Map.empty
     (0 \<mapsto> \<lparr>code = ''outer'', wrappedErr = ZErr ''domainErr'' 1, tags = [], data = [],
            stack = None\<rparr>,
      1 \<mapsto> \<lparr>code = ''not_found'', wrappedErr = Nil, tags = [], data = [], stack = None\<rparr>,
      2 \<mapsto> \<lparr>code = ''not_found'', wrappedErr = Nil, tags = [], data = [], stack = None\<rparr>)"

text \<open>
  The errors of the README's logging example; at address 2 a node as \<^verbatim>\<open>New\<close>
  leaves it when no stack was captured; at address 3 a node whose only data value
  is an empty slice \<^verbatim>\<open>[]slog.Attr{}\<close> and whose cause is a foreign error with a method
  \<^verbatim>\<open>LogValue\<close>.
\<close>

definition log_store :: store where
  "log_store = Map.empty
     (0 \<mapsto> \<lparr>code = ''user_not_found'', wrappedErr = ZErr ''DBError'' 1,
            tags = [''critical'', ''lookup'', ''database''],
            data = [(''user_id'', AnyInt 12345), (''trace_id'', AnyString ''abc-123'')],
            stack = Some \<lparr>frames = [\<lparr>frame_pc = 0, frame_file = ''main.go'',
              frame_function = ''findUser'', frame_line = 25\<rparr>]\<rparr>\<rparr>,
      1 \<mapsto> \<lparr>code = ''db_record_not_found'', wrappedErr = Foreign ''no rows'' None None Nil,
            tags = [''database''], data = [], stack = None\<rparr>,
      2 \<mapsto> \<lparr>code = ''plain'', wrappedErr = Nil, tags = [], data = [], stack = None\<rparr>,
      3 \<mapsto> \<lparr>code = ''svc'',
            wrappedErr = Foreign ''boom'' None
              (Some (GroupValue [(''kind'', StringValue ''custom'')])) Nil,
            tags = [], data = [(''k'', AnyAttrs [])], stack = None\<rparr>)"

text \<open>
  Two tables of methods: one in which no code type has a formatting method, and
  one in which the code type \<^verbatim>\<open>shout\<close> has the method
  \<^verbatim>\<open>func (c shout) String() string { return "SHOUT(" + string(c) + ")" }\<close>.
\<close>

definition no_methods :: fmt_methods where
  "no_methods = (\<lambda>T. None)"

definition shout_methods :: fmt_methods where
  "shout_methods =
     (\<lambda>T. if T = ''shout'' then Some (\<lambda>c. ''SHOUT('' @ c @ '')'') else None)"

section \<open>Auxiliary facts\<close>

lemma set_hashset_Add: "set (hashset_Add s ts) = set s \<union> set ts"
  by (induction ts arbitrary: s) auto

lemma hashset_Contains_subset: "hashset_Contains s ts = (set ts \<subseteq> set s)"
  by (induction ts) auto

lemma chain_node: "chain h err ls \<Longrightarrow> ZLink T a n \<in> set ls \<Longrightarrow> h a = Some n"
  by (induction rule: chain.induct) auto

lemma first_of_type_mem: "first_of_type T ls = Some (a, n) \<Longrightarrow> ZLink T a n \<in> set ls"
proof (induction ls)
  case Nil
  then show ?case by simp
next
  case (Cons l ls)
  then show ?case by (cases l) (auto split: if_splits)
qed

lemma first_of_type_split:
  "\<forall>a' n'. ZLink T a' n' \<notin> set pre \<Longrightarrow>
   first_of_type T (pre @ ZLink T a n # post) = Some (a, n)"
proof (induction pre)
  case Nil
  then show ?case by simp
next
  case (Cons l pre)
  then show ?case by (cases l) auto
qed

lemma first_of_type_none: "\<forall>a n. ZLink T a n \<notin> set ls \<Longrightarrow> first_of_type T ls = None"
proof (induction ls)
  case Nil
  then show ?case by simp
next
  case (Cons l ls)
  then show ?case by (cases l) auto
qed

text \<open>What \<^verbatim>\<open>Error()\<close> returns on a live node, branch by branch.\<close>

lemma Error_Error_render:
  assumes "h e = Some n"
  shows "(wrappedErr n = Nil \<longrightarrow> Error_Error F h T e = Some (Inr (code n))) \<and>
         (\<forall>s. wrappedErr n \<noteq> Nil \<and> error_Error F h (wrappedErr n) = Some (Inr s)
            \<longrightarrow> Error_Error F h T e = Some (Inr (fmt_s F T (code n) @ '': '' @ s)))"
proof (intro conjI allI impI)
  assume "wrappedErr n = Nil"
  with assms show "Error_Error F h T e = Some (Inr (code n))"
    by (subst Error_Error.simps) simp
next
  fix s assume "wrappedErr n \<noteq> Nil \<and> error_Error F h (wrappedErr n) = Some (Inr s)"
  with assms show "Error_Error F h T e = Some (Inr (fmt_s F T (code n) @ '': '' @ s))"
    by (subst Error_Error.simps) (auto simp: error_Error_def split: error.splits)
qed

text \<open>For a code type without a formatting method the code is printed as it is.\<close>

lemma fmt_s_plain: "F T = None \<Longrightarrow> fmt_s F T c = c"
  by (simp add: fmt_s_def)

text \<open>On a finite chain \<^verbatim>\<open>Error()\<close> returns a string.\<close>

lemma Error_Error_chain:
  "chain h err ls \<Longrightarrow> err = ZErr T e \<Longrightarrow> \<exists>s. Error_Error F h T e = Some (Inr s)"
proof (induction arbitrary: T e rule: chain.induct)
  case chain_Nil
  then show ?case by simp
next
  case (chain_Foreign c ls m ts lv)
  then show ?case by simp
next
  case (chain_ZErr a n ls T')
  then have ha: "h e = Some n" by simp
  show ?case
  proof (cases "wrappedErr n")
    case Nil
    with ha show ?thesis by (subst Error_Error.simps) simp
  next
    case (ZErr T2 w)
    with chain_ZErr.IH obtain s where "Error_Error F h T2 w = Some (Inr s)" by blast
    then show ?thesis using ha ZErr by (subst Error_Error.simps) simp
  next
    case (Foreign m ts lv c)
    with ha show ?thesis by (subst Error_Error.simps) simp
  qed
qed

text \<open>A node that is its own cause: \<^verbatim>\<open>Error()\<close> never returns.\<close>

lemma Error_Error_self_cause:
  assumes "h e = Some n" and "wrappedErr n = ZErr T e"
  shows "Error_Error F h T e = None"
proof (rule ccontr)
  assume "Error_Error F h T e \<noteq> None"
  then obtain r where r: "Error_Error F h T e = Some r" by auto
  have "\<not> (h = h \<and> e = e)"
  proof (rule Error_Error.raw_induct
      [where P = "\<lambda>F' h' T' e' r'. \<not> (h' = h \<and> e' = e)", OF _ r])
    fix f :: "fmt_methods \<Rightarrow> store \<Rightarrow> code_type \<Rightarrow> addr \<Rightarrow> string result option"
      and F' h' T' e' r'
    assume IH: "\<And>F2 h2 T2 e2 y. f F2 h2 T2 e2 = Some y \<Longrightarrow> \<not> (h2 = h \<and> e2 = e)"
      and step: "(case h' e' of
          None \<Rightarrow> Some (Inl NilDeref)
        | Some n \<Rightarrow>
            (case wrappedErr n of
               Nil \<Rightarrow> Some (Inr (code n))
             | ZErr T'' w \<Rightarrow>
                 Option.bind (f F' h' T'' w)
                   (\<lambda>r. case r of
                      Inl p \<Rightarrow> Some (Inl p)
                    | Inr s \<Rightarrow> Some (Inr (fmt_s F' T' (code n) @ '': '' @ s)))
             | Foreign m ts lv c \<Rightarrow> Some (Inr (fmt_s F' T' (code n) @ '': '' @ m)))) = Some r'"
    show "\<not> (h' = h \<and> e' = e)"
    proof
      assume eq: "h' = h \<and> e' = e"
      with step assms obtain y where "f F' h T e = Some y"
        by (auto simp: bind_eq_Some_conv)
      then have "\<not> (h = h \<and> e = e)" by (rule IH)
      then show False by simp
    qed
  qed
  then show False by simp
qed

text \<open>
  The method \<^verbatim>\<open>As\<close> asks only the run of \<^verbatim>\<open>*Error\<close> nodes that starts at its
  receiver: it either reports nothing or the first node of the wanted type.
\<close>

lemma Error_As_chain:
  "chain h err ls \<Longrightarrow> err = ZErr T e \<Longrightarrow>
   Error_As h T e Tt = Some (Inr None) \<or>
   (\<exists>t m. first_of_type Tt ls = Some (t, m) \<and> Error_As h T e Tt = Some (Inr (Some t)))"
proof (induction arbitrary: T e rule: chain.induct)
  case chain_Nil
  then show ?case by simp
next
  case (chain_Foreign c ls m ts lv)
  then show ?case by simp
next
  case (chain_ZErr a n ls T')
  then have ha: "h e = Some n" and TT: "T' = T" and ae: "a = e" by simp_all
  show ?case
  proof (cases "Tt = T")
    case True
    have "Error_As h T e Tt = Some (Inr (Some e))"
      using True by (subst Error_As.simps) simp
    then show ?thesis using True TT ae by simp
  next
    case False
    show ?thesis
    proof (cases "wrappedErr n")
      case Nil
      with ha False show ?thesis by (subst Error_As.simps) simp
    next
      case (Foreign m ts lv c)
      with ha False show ?thesis by (subst Error_As.simps) simp
    next
      case (ZErr T2 w)
      have "Error_As h T e Tt = Error_As h T2 w Tt"
        using ha False ZErr by (subst Error_As.simps) simp
      with chain_ZErr.IH[OF ZErr] show ?thesis using False TT by auto
    qed
  qed
qed

text \<open>\<^verbatim>\<open>errors.As\<close> on a finite chain returns the first node of the wanted type.\<close>

lemma errors_As_chain:
  "chain h err ls \<Longrightarrow> errors_As h err Tt = Some (Inr (map_option fst (first_of_type Tt ls)))"
proof (induction rule: chain.induct)
  case chain_Nil
  then show ?case by (subst errors_As.simps) simp
next
  case (chain_Foreign c ls m ts lv)
  then show ?case by (subst errors_As.simps) simp
next
  case (chain_ZErr a n ls T)
  show ?case
  proof (cases "T = Tt")
    case True
    then show ?thesis by (subst errors_As.simps) simp
  next
    case False
    have ch: "chain h (ZErr T a) (ZLink T a n # ls)"
      using chain_ZErr.hyps by (rule chain.chain_ZErr)
    from Error_As_chain[OF ch refl, of Tt]
    show ?thesis
    proof
      assume "Error_As h T a Tt = Some (Inr None)"
      then show ?thesis using False chain_ZErr.hyps(1) chain_ZErr.IH
        by (subst errors_As.simps) (simp add: Error_Unwrap_def)
    next
      assume "\<exists>t m. first_of_type Tt (ZLink T a n # ls) = Some (t, m) \<and>
              Error_As h T a Tt = Some (Inr (Some t))"
      then show ?thesis using False
        by (subst errors_As.simps) auto
    qed
  qed
qed

text \<open>What \<^verbatim>\<open>HasCode\<close> computes on a finite chain: the comparison of the wanted code
  with the code of the first node of the wanted type, and of no other node.\<close>

lemma HasCode_chain:
  assumes "chain h err ls"
  shows "HasCode h err T c =
           Some (Inr (case first_of_type T ls of None \<Rightarrow> False | Some (a, n) \<Rightarrow> code n = c))"
proof (cases "first_of_type T ls")
  case None
  with errors_As_chain[OF assms, of T] show ?thesis by (simp add: HasCode_def)
next
  case (Some p)
  obtain a n where p: "p = (a, n)" by (cases p)
  from Some p have "ZLink T a n \<in> set ls" by (simp add: first_of_type_mem)
  with assms have "h a = Some n" by (rule chain_node)
  with errors_As_chain[OF assms, of T] Some p show ?thesis
    by (simp add: HasCode_def Error_Code_def)
qed

text \<open>
  \<^verbatim>\<open>slog.GroupValue\<close> yields an empty group exactly when every attribute it is given
  is an empty group; the group of a data map is empty exactly when every value of
  the map is one.
\<close>

lemma isEmptyGroup_slog_GroupValue:
  "isEmptyGroup (slog_GroupValue as) = list_all (\<lambda>a. isEmptyGroup (snd a)) as"
  by (auto simp: slog_GroupValue_def filter_empty_conv list_all_iff)

lemma slog_Group_data:
  "slog_Group key args =
     (key, GroupValue (filter (\<lambda>a. \<not> isEmptyGroup (snd a))
                              (map (\<lambda>(k, v). (k, slog_AnyValue v)) args)))"
  by (simp add: slog_Group_def slog_GroupValue_def slog_Any_def)

lemma isEmptyGroup_data_group:
  "isEmptyGroup (snd (slog_Group key args))
     = list_all (\<lambda>(k, v). isEmptyGroup (slog_AnyValue v)) args"
  by (auto simp: slog_Group_def slog_Any_def isEmptyGroup_slog_GroupValue list_all_iff)

text \<open>The projection of a node is never an empty group: it holds the code.\<close>

lemma projection_not_empty:
  "\<not> isEmptyGroup (slog_GroupValue (base_attrs n msg @ rest))"
  by (simp add: isEmptyGroup_slog_GroupValue base_attrs_def slog_String_def)

text \<open>The attributes that \<^verbatim>\<open>slog.GroupValue\<close> keeps of those \<^verbatim>\<open>LogValue\<close> collects.\<close>

lemma kept_base_attrs:
  "filter (\<lambda>a. \<not> isEmptyGroup (snd a)) (base_attrs n msg) =
     [(''code'', StringValue (code n)), (''error'', StringValue msg)]
     @ (if list_all (\<lambda>(k, v). isEmptyGroup (slog_AnyValue v)) (data n) then []
        else [slog_Group ''data'' (data n)])
     @ (if tags n = [] then [] else [(''tags'', AnyValue (AnyStrings (tags n)))])"
proof (cases "data n = []")
  case True
  then show ?thesis
    by (simp add: base_attrs_def slog_String_def slog_Any_def hashset_Empty_def
        hashset_Values_def)
next
  case False
  then show ?thesis
    using isEmptyGroup_data_group[of "''data''" "data n"]
    by (simp add: base_attrs_def slog_String_def slog_Any_def hashset_Empty_def
        hashset_Values_def)
qed

lemma kept_stack_attrs:
  "filter (\<lambda>a. \<not> isEmptyGroup (snd a)) (stack_attrs n) =
     (case stack n of None \<Rightarrow> [] | Some st \<Rightarrow> [(''stack'', StringValue (stack_String st))])"
  by (simp add: stack_attrs_def slog_String_def split: option.splits)

text \<open>On a finite chain \<^verbatim>\<open>LogValue\<close> returns the group of the attributes it collects.\<close>

lemma Error_LogValue_chain:
  "chain h err ls \<Longrightarrow> err = ZErr T e \<Longrightarrow>
   \<exists>n msg W. h e = Some n \<and> Error_Error F h T e = Some (Inr msg) \<and>
     Error_LogValue F h T e
       = Some (Inr (slog_GroupValue (base_attrs n msg @ W @ stack_attrs n))) \<and>
     (case wrappedErr n of
        Nil \<Rightarrow> W = []
      | Foreign m ts None c \<Rightarrow> W = [(''wrapped'', StringValue m)]
      | Foreign m ts (Some v) c \<Rightarrow> W = [(''wrapped'', v)]
      | ZErr T' w \<Rightarrow>
          \<exists>v. Error_LogValue F h T' w = Some (Inr v) \<and> \<not> isEmptyGroup v \<and>
              W = [(''wrapped'', v)])"
proof (induction arbitrary: T e rule: chain.induct)
  case chain_Nil
  then show ?case by simp
next
  case (chain_Foreign c ls m ts lv)
  then show ?case by simp
next
  case (chain_ZErr a n ls T')
  then have ha: "h e = Some n" by simp
  have "chain h (ZErr T e) (ZLink T e n # ls)"
    using chain_ZErr.hyps ha by (auto intro: chain.chain_ZErr)
  from Error_Error_chain[OF this refl] obtain msg where
    msg: "Error_Error F h T e = Some (Inr msg)" ..
  show ?case
  proof (cases "wrappedErr n")
    case Nil
    have "Error_LogValue F h T e
            = Some (Inr (slog_GroupValue (base_attrs n msg @ [] @ stack_attrs n)))"
      using ha msg Nil by (subst Error_LogValue.simps) simp
    with ha msg Nil show ?thesis by auto
  next
    case (Foreign m ts lv c)
    show ?thesis
    proof (cases lv)
      case None
      have "Error_LogValue F h T e = Some (Inr (slog_GroupValue
              (base_attrs n msg @ [(''wrapped'', StringValue m)] @ stack_attrs n)))"
        using ha msg Foreign None
        by (subst Error_LogValue.simps) (simp add: slog_String_def del: append.simps)
      with ha msg Foreign None show ?thesis by auto
    next
      case (Some v)
      have "Error_LogValue F h T e = Some (Inr (slog_GroupValue
              (base_attrs n msg @ [(''wrapped'', v)] @ stack_attrs n)))"
        using ha msg Foreign Some
        by (subst Error_LogValue.simps) (simp add: slog_Any_def del: append.simps)
      with ha msg Foreign Some show ?thesis by auto
    qed
  next
    case (ZErr T2 w)
    from chain_ZErr.IH[OF ZErr] obtain n2 msg2 W2 where
      inner: "Error_LogValue F h T2 w
                = Some (Inr (slog_GroupValue (base_attrs n2 msg2 @ W2 @ stack_attrs n2)))"
      by blast
    let ?v = "slog_GroupValue (base_attrs n2 msg2 @ W2 @ stack_attrs n2)"
    have ne: "\<not> isEmptyGroup ?v" by (rule projection_not_empty)
    have "Error_LogValue F h T e = Some (Inr (slog_GroupValue
            (base_attrs n msg @ [(''wrapped'', ?v)] @ stack_attrs n)))"
      using ha msg ZErr inner
      by (subst Error_LogValue.simps) (simp add: slog_Any_def del: append.simps)
    with ha msg ZErr inner ne show ?thesis by auto
  qed
qed

text \<open>Every call that changes the store keeps the tags of every node.\<close>

lemma tags_kept_refl: "tags_kept h h"
  by (auto simp: tags_kept_def)

lemma tags_kept_trans: "tags_kept h h1 \<Longrightarrow> tags_kept h1 h2 \<Longrightarrow> tags_kept h h2"
  unfolding tags_kept_def by (meson subset_trans)

lemma call_tags_kept: "call h h' \<Longrightarrow> tags_kept h h'"
proof (induction rule: call.induct)
  case (call_New h a c st)
  then show ?case by (auto simp: New_def tags_kept_def)
next
  case (call_Tags h e ts h')
  then show ?case
    by (auto simp: Error_Tags_def tags_kept_def set_hashset_Add split: option.splits)
next
  case (call_With h e k v h')
  then show ?case by (auto simp: Error_With_def tags_kept_def split: option.splits)
next
  case (call_WithError h e err h')
  then show ?case
    by (auto simp: Error_WithError_def Error_Tags_def Error_GetTags_def tags_kept_def
        set_hashset_Add Let_def split: option.splits error.splits sum.splits if_splits)
next
  case (call_Errorf h e msg w h')
  then show ?case by (auto simp: Error_Errorf_def tags_kept_def split: option.splits)
qed

text \<open>The example stores are what calls of the package build.\<close>

lemma creation_store_built:
  "(case Error_With (New Map.empty 0 ''not_found'' None) 0 ''user_id'' (AnyInt 123) of
      Inl p \<Rightarrow> Inl p
    | Inr h1 \<Rightarrow>
   (case Error_With h1 0 ''trace'' (AnyString ''1234'') of
      Inl p \<Rightarrow> Inl p
    | Inr h2 \<Rightarrow>
   (case Error_Errorf h2 0 ''message'' Nil of
      Inl p \<Rightarrow> Inl p
    | Inr h3 \<Rightarrow>
   (case Error_With (New h3 1 ''zero_rows'' None) 1 ''req_id'' (AnyInt 10) of
      Inl p \<Rightarrow> Inl p
    | Inr h4 \<Rightarrow>
   (case Error_Errorf h4 1 ''db returned no rows'' Nil of
      Inl p \<Rightarrow> Inl p
    | Inr h5 \<Rightarrow> Error_WithError h5 0 (ZErr ''dbErr'' 1))))))
   = Inr creation_store"
  by (simp add: New_def Error_With_def Error_Errorf_def fmt_Errorf_def Error_WithError_def
      Error_GetTags_def Error_Tags_def hashset_Values_def creation_store_def fun_upd_twist)

lemma tags_store_built:
  "(case Error_Tags (New Map.empty 0 ''unauthorized'' None) 0 [''permission''] of
      Inl p \<Rightarrow> Inl p
    | Inr h1 \<Rightarrow> Error_Tags (New h1 1 ''not_found'' None) 1 [''iam'', ''authz''])
   = Inr tags_store"
  by (simp add: New_def Error_Tags_def tags_store_def)

lemma message_store_built:
  "(case Error_Errorf (New (New Map.empty 0 ''A'' None) 1 ''B'' None) 1 ''m'' Nil of
      Inl p \<Rightarrow> Inl p
    | Inr h \<Rightarrow> Error_WithError h 0 (ZErr ''codeB'' 1))
   = Inr message_store"
  by (simp add: New_def Error_Errorf_def fmt_Errorf_def Error_WithError_def
      Error_GetTags_def Error_Tags_def hashset_Values_def message_store_def fun_upd_twist)

text \<open>With code types that have no formatting method the chain of codes \<open>A\<close>, \<open>B\<close>
  and the message \<open>m\<close> renders as \<open>A: B: m\<close>.\<close>

lemma message_store_message:
  "Error_Error no_methods message_store ''codeA'' 0 = Some (Inr ''A: B: m'')"
  by (simp add: Error_Error.simps message_store_def fmt_s_def no_methods_def)

lemma identity_store_built:
  "Error_WithError
     (New (New (New Map.empty 0 ''outer'' None) 1 ''not_found'' None) 2 ''not_found'' None)
     0 (ZErr ''domainErr'' 1)
   = Inr identity_store"
  by (simp add: New_def Error_WithError_def Error_GetTags_def Error_Tags_def hashset_Values_def
      identity_store_def fun_upd_twist)

lemma log_store_built:
  "(case Error_Tags (New Map.empty 1 ''db_record_not_found'' None) 1 [''database''] of
      Inl p \<Rightarrow> Inl p
    | Inr h1 \<Rightarrow>
   (case Error_Errorf h1 1 ''no rows'' Nil of
      Inl p \<Rightarrow> Inl p
    | Inr h2 \<Rightarrow>
   (case Error_With
           (New h2 0 ''user_not_found''
              (Some \<lparr>frames = [\<lparr>frame_pc = 0, frame_file = ''main.go'',
                 frame_function = ''findUser'', frame_line = 25\<rparr>]\<rparr>))
           0 ''user_id'' (AnyInt 12345) of
      Inl p \<Rightarrow> Inl p
    | Inr h3 \<Rightarrow>
   (case Error_With h3 0 ''trace_id'' (AnyString ''abc-123'') of
      Inl p \<Rightarrow> Inl p
    | Inr h4 \<Rightarrow>
   (case Error_Tags h4 0 [''critical'', ''lookup''] of
      Inl p \<Rightarrow> Inl p
    | Inr h5 \<Rightarrow>
   (case Error_WithError h5 0 (ZErr ''DBError'' 1) of
      Inl p \<Rightarrow> Inl p
    | Inr h6 \<Rightarrow>
   (case Error_With (New (New h6 2 ''plain'' None) 3 ''svc'' None) 3 ''k'' (AnyAttrs []) of
      Inl p \<Rightarrow> Inl p
    | Inr h7 \<Rightarrow>
        Error_WithError h7 3
          (Foreign ''boom'' None (Some (GroupValue [(''kind'', StringValue ''custom'')])) Nil))))))))
   = Inr log_store"
  by (simp add: New_def Error_With_def Error_Errorf_def fmt_Errorf_def Error_WithError_def
      Error_GetTags_def Error_Tags_def hashset_Values_def log_store_def fun_upd_twist)

section \<open>The claims\<close>

text \<open>
  C1.  \<^verbatim>\<open>HasCode(err, c)\<close> is to hold as soon as some node of the chain has code
  type \<^verbatim>\<open>C\<close> and the code \<open>c\<close>, also when an earlier node of the same code type
  carries another code.  The code compares \<open>c\<close> with the code of the first node of
  type \<^verbatim>\<open>C\<close> that \<^verbatim>\<open>errors.As\<close> finds, and with no other.  Here two nodes of one code
  type are built by \<^verbatim>\<open>New\<close> and linked by \<^verbatim>\<open>WithError\<close>: the outer one has the code
  \<open>not_found\<close>, its cause the code \<open>bad_request\<close>; \<^verbatim>\<open>HasCode\<close> finds the outer code and
  reports \<^verbatim>\<open>false\<close> for the inner one.
\<close>

theorem HasCode_first_node_decides:
  "(case Error_WithError (New (New Map.empty 0 ''not_found'' None) 1 ''bad_request'' None) 0
           (ZErr ''domainErr'' 1) of
      Inl p \<Rightarrow> False
    | Inr h \<Rightarrow>
        Error_Code h 0 = Inr ''not_found'' \<and>
        Error_Unwrap h 0 = Inr (ZErr ''domainErr'' 1) \<and>
        Error_Code h 1 = Inr ''bad_request'' \<and>
        Error_Unwrap h 1 = Inr Nil \<and>
        HasCode h (ZErr ''domainErr'' 0) ''domainErr'' ''not_found'' = Some (Inr True) \<and>
        HasCode h (ZErr ''domainErr'' 0) ''domainErr'' ''bad_request'' = Some (Inr False))"
  by (simp add: Error_WithError_def New_def Error_GetTags_def Error_Tags_def hashset_Values_def
      Error_Code_def Error_Unwrap_def HasCode_def errors_As.simps)

text \<open>
  C2.  \<^verbatim>\<open>Error()\<close> is to render the node's code, a colon and a space, and the
  cause's message when there is a cause, and the code alone when there is none.
  The branch without a cause returns \<^verbatim>\<open>string(e.code)\<close>, as \<^verbatim>\<open>CodeString\<close> does; the
  branch with a cause prints the code through the verb \<^verbatim>\<open>%s\<close>, which calls a
  formatting method of the code type.  Here the code type \<^verbatim>\<open>shout\<close> has a method
  \<^verbatim>\<open>String\<close>: the node built by \<^verbatim>\<open>New(shout("a"))\<close> renders as \<open>a\<close>, and after
  \<^verbatim>\<open>Errorf("m")\<close> as \<open>SHOUT(a): m\<close>, not as \<open>a: m\<close>; with a code type that has no such
  method the same node renders as \<open>a: m\<close>.
\<close>

theorem Error_prints_code_through_fmt:
  "(case Error_Errorf (New Map.empty 0 ''a'' None) 0 ''m'' Nil of
      Inl p \<Rightarrow> False
    | Inr h \<Rightarrow>
        Error_Code h 0 = Inr ''a'' \<and>
        Error_CodeString h 0 = Inr ''a'' \<and>
        Error_Unwrap h 0 = Inr (Foreign ''m'' None None Nil) \<and>
        Error_Error shout_methods (New Map.empty 0 ''a'' None) ''shout'' 0 = Some (Inr ''a'') \<and>
        Error_Error shout_methods h ''shout'' 0 = Some (Inr ''SHOUT(a): m'') \<and>
        Error_Error no_methods h ''shout'' 0 = Some (Inr ''a: m''))"
  by (simp add: New_def Error_Errorf_def fmt_Errorf_def Error_Code_def Error_CodeString_def
      Error_Unwrap_def Error_Error.simps fmt_s_def shout_methods_def no_methods_def)

text \<open>
  C3.  On every finite chain, however long, the generic helper \<^verbatim>\<open>As\<close> applies the
  callback to the first node whose code type is the wanted one and returns its
  result with \<^verbatim>\<open>true\<close>; when no node of the chain has that code type it returns nil
  and \<^verbatim>\<open>false\<close>.
\<close>

theorem As_first_node_of_type:
  assumes "chain h err ls"
  shows "(\<forall>pre a n post.
            ls = pre @ ZLink T a n # post \<and> (\<forall>a' n'. ZLink T a' n' \<notin> set pre)
            \<longrightarrow> As h err T fn = Some (Inr (Some (fn a), True))) \<and>
         ((\<forall>a n. ZLink T a n \<notin> set ls) \<longrightarrow> As h err T fn = Some (Inr (None, False)))"
  using errors_As_chain[OF assms, of T]
  by (auto simp: As_def first_of_type_split first_of_type_none)

theorem As_first_node_of_type_witness:
  "chain creation_store (ZErr ''domainErr'' 0)
     [ZLink ''domainErr'' 0
        \<lparr>code = ''not_found'', wrappedErr = ZErr ''dbErr'' 1, tags = [],
         data = [(''user_id'', AnyInt 123), (''trace'', AnyString ''1234'')], stack = None\<rparr>,
      ZLink ''dbErr'' 1
        \<lparr>code = ''zero_rows'', wrappedErr = Foreign ''db returned no rows'' None None Nil,
         tags = [], data = [(''req_id'', AnyInt 10)], stack = None\<rparr>,
      FLink ''db returned no rows'' None None] \<and>
   As creation_store (ZErr ''domainErr'' 0) ''domainErr''
      (\<lambda>zerr. Error_Get creation_store zerr ''user_id'')
     = Some (Inr (Some (Inr (AnyInt 123, True)), True)) \<and>
   As creation_store (ZErr ''domainErr'' 0) ''dbErr''
      (\<lambda>zerr. Error_Get creation_store zerr ''req_id'')
     = Some (Inr (Some (Inr (AnyInt 10, True)), True)) \<and>
   As creation_store (ZErr ''domainErr'' 0) ''otherErr''
      (\<lambda>zerr. Error_Get creation_store zerr ''req_id'')
     = Some (Inr (None, False))"
proof -
  let ?n0 = "\<lparr>code = ''not_found'', wrappedErr = ZErr ''dbErr'' 1, tags = [],
         data = [(''user_id'', AnyInt 123), (''trace'', AnyString ''1234'')], stack = None\<rparr>"
  let ?n1 = "\<lparr>code = ''zero_rows'', wrappedErr = Foreign ''db returned no rows'' None None Nil,
         tags = [], data = [(''req_id'', AnyInt 10)], stack = None\<rparr>"
  let ?ls = "[ZLink ''domainErr'' 0 ?n0, ZLink ''dbErr'' 1 ?n1, FLink ''db returned no rows'' None None]"
  have ch: "chain creation_store (ZErr ''domainErr'' 0) ?ls"
    by (simp add: chain.intros creation_store_def)
  have 1: "As creation_store (ZErr ''domainErr'' 0) ''domainErr''
             (\<lambda>zerr. Error_Get creation_store zerr ''user_id'')
           = Some (Inr (Some (Error_Get creation_store 0 ''user_id''), True))"
    using As_first_node_of_type[OF ch, of "''domainErr''", THEN conjunct1, rule_format,
        of "[]" 0 ?n0 "[ZLink ''dbErr'' 1 ?n1, FLink ''db returned no rows'' None None]"]
    by simp
  have 2: "As creation_store (ZErr ''domainErr'' 0) ''dbErr''
             (\<lambda>zerr. Error_Get creation_store zerr ''req_id'')
           = Some (Inr (Some (Error_Get creation_store 1 ''req_id''), True))"
    using As_first_node_of_type[OF ch, of "''dbErr''", THEN conjunct1, rule_format,
        of "[ZLink ''domainErr'' 0 ?n0]" 1 ?n1 "[FLink ''db returned no rows'' None None]"]
    by simp
  have 3: "As creation_store (ZErr ''domainErr'' 0) ''otherErr''
             (\<lambda>zerr. Error_Get creation_store zerr ''req_id'')
           = Some (Inr (None, False))"
    using As_first_node_of_type[OF ch, of "''otherErr''", THEN conjunct2]
    by simp
  have g: "Error_Get creation_store 0 ''user_id'' = Inr (AnyInt 123, True)"
          "Error_Get creation_store 1 ''req_id'' = Inr (AnyInt 10, True)"
    by (simp_all add: Error_Get_def creation_store_def)
  from ch 1 2 3 g show ?thesis by simp
qed

text \<open>
  C4.  When \<^verbatim>\<open>WithError\<close> attaches another live node as the cause, the wrapper's tags
  become the union of its own tags and the tags the cause has at that moment.
  Tags that the cause receives afterwards, by \<^verbatim>\<open>Tags\<close> or by wrapping a further
  error, leave the wrapper's tags as they are.  The same union is taken with the
  tags of a foreign cause that has the method \<^verbatim>\<open>GetTags\<close>.
\<close>

theorem WithError_tags_snapshot:
  assumes "h e = Some n" and "h w = Some m" and "e \<noteq> w"
  shows "(\<exists>h1 ts1. Error_WithError h e (ZErr T w) = Inr h1 \<and>
            Error_GetTags h1 e = Inr ts1 \<and>
            set ts1 = set (tags n) \<union> set (tags m) \<and>
            (\<forall>ts h2. Error_Tags h1 w ts = Inr h2 \<longrightarrow> Error_GetTags h2 e = Inr ts1) \<and>
            (\<forall>c h2. Error_WithError h1 w c = Inr h2 \<longrightarrow> Error_GetTags h2 e = Inr ts1)) \<and>
         (\<forall>msg fts lv c. \<exists>h1 ts1.
            Error_WithError h e (Foreign msg (Some fts) lv c) = Inr h1 \<and>
            Error_GetTags h1 e = Inr ts1 \<and>
            set ts1 = set (tags n) \<union> set fts)"
proof -
  let ?ts1 = "hashset_Add (tags n) (tags m)"
  let ?h1 = "h(e \<mapsto> n\<lparr>wrappedErr := ZErr T w, tags := ?ts1\<rparr>)"
  have 1: "Error_WithError h e (ZErr T w) = Inr ?h1"
    using assms
    by (simp add: Error_WithError_def Error_GetTags_def Error_Tags_def hashset_Values_def)
  have 2: "Error_GetTags ?h1 e = Inr ?ts1"
    by (simp add: Error_GetTags_def hashset_Values_def)
  have 3: "Error_GetTags h2 e = Inr ?ts1" if "Error_Tags ?h1 w ts = Inr h2" for ts h2
    using that assms by (auto simp: Error_Tags_def Error_GetTags_def hashset_Values_def)
  have 4: "Error_GetTags h2 e = Inr ?ts1" if "Error_WithError ?h1 w c = Inr h2" for c h2
    using that assms
    by (auto simp: Error_WithError_def Error_Tags_def Error_GetTags_def hashset_Values_def
        Let_def split: error.splits option.splits sum.splits if_splits)
  have 5: "\<exists>h1 ts1. Error_WithError h e (Foreign msg (Some fts) lv c) = Inr h1 \<and>
            Error_GetTags h1 e = Inr ts1 \<and> set ts1 = set (tags n) \<union> set fts" for msg fts lv c
    using assms(1)
    by (simp add: Error_WithError_def Error_Tags_def Error_GetTags_def hashset_Values_def
        set_hashset_Add)
  have "set ?ts1 = set (tags n) \<union> set (tags m)"
    by (rule set_hashset_Add)
  with 1 2 3 4 5 show ?thesis by blast
qed

theorem WithError_tags_snapshot_witness:
  "tags_store 1 =
     Some \<lparr>code = ''not_found'', wrappedErr = Nil, tags = [''iam'', ''authz''], data = [],
           stack = None\<rparr> \<and>
   tags_store 0 =
     Some \<lparr>code = ''unauthorized'', wrappedErr = Nil, tags = [''permission''], data = [],
           stack = None\<rparr> \<and>
   (\<exists>h1 ts1 h2.
      Error_WithError tags_store 1 (ZErr ''anotherErr'' 0) = Inr h1 \<and>
      Error_GetTags h1 1 = Inr ts1 \<and>
      set ts1 = {''iam'', ''authz'', ''permission''} \<and>
      Error_Tags h1 0 [''late''] = Inr h2 \<and>
      Error_GetTags h2 0 = Inr [''permission'', ''late''] \<and>
      Error_GetTags h2 1 = Inr ts1)"
proof -
  let ?n1 = "\<lparr>code = ''not_found'', wrappedErr = Nil, tags = [''iam'', ''authz''], data = [],
              stack = None\<rparr>"
  let ?n0 = "\<lparr>code = ''unauthorized'', wrappedErr = Nil, tags = [''permission''], data = [],
              stack = None\<rparr>"
  have n1: "tags_store 1 = Some ?n1" and n0: "tags_store 0 = Some ?n0"
    by (simp_all add: tags_store_def)
  have ne: "(1::addr) \<noteq> 0" by simp
  from WithError_tags_snapshot[OF n1 n0 ne, of "''anotherErr''", THEN conjunct1]
  obtain h1 ts1 where
    a: "Error_WithError tags_store 1 (ZErr ''anotherErr'' 0) = Inr h1" and
    b: "Error_GetTags h1 1 = Inr ts1" and
    c: "set ts1 = {''iam'', ''authz'', ''permission''}" and
    d: "\<forall>ts h2. Error_Tags h1 0 ts = Inr h2 \<longrightarrow> Error_GetTags h2 1 = Inr ts1"
    by auto
  from a have h1: "h1 = tags_store(1 \<mapsto> ?n1\<lparr>wrappedErr := ZErr ''anotherErr'' 0,
                      tags := [''iam'', ''authz'', ''permission'']\<rparr>)"
    by (simp add: Error_WithError_def Error_GetTags_def Error_Tags_def hashset_Values_def
        tags_store_def)
  let ?h2 = "h1(0 \<mapsto> ?n0\<lparr>tags := [''permission'', ''late'']\<rparr>)"
  have e: "Error_Tags h1 0 [''late''] = Inr ?h2"
    by (simp add: h1 Error_Tags_def tags_store_def)
  have f: "Error_GetTags ?h2 0 = Inr [''permission'', ''late'']"
    by (simp add: Error_GetTags_def hashset_Values_def)
  from d e have g: "Error_GetTags ?h2 1 = Inr ts1" by blast
  from n1 n0 a b c e f g show ?thesis by blast
qed

text \<open>
  C5.  \<^verbatim>\<open>Is\<close> on a live node returns \<^verbatim>\<open>true\<close> exactly when the target is a pointer
  \<^verbatim>\<open>*Error[T]\<close> of the receiver's own code type to a node with the receiver's code.
  A target of another code type is never equal, whatever its code.  The result
  does not depend on the cause of any node: it stays the same when all causes in
  the store are replaced.
\<close>

theorem Is_same_type_same_code:
  assumes "h e = Some n" and "\<forall>t. target = ZErr T t \<longrightarrow> h t \<noteq> None"
  shows "Error_Is h T e target
           = Inr (\<exists>t m. target = ZErr T t \<and> h t = Some m \<and> code m = code n) \<and>
         (\<forall>T' t. T' \<noteq> T \<longrightarrow> Error_Is h T e (ZErr T' t) = Inr False) \<and>
         (\<forall>f. Error_Is (set_causes f h) T e target = Error_Is h T e target)"
proof (intro conjI allI impI)
  show "Error_Is h T e target
          = Inr (\<exists>t m. target = ZErr T t \<and> h t = Some m \<and> code m = code n)"
    using assms by (auto simp: Error_Is_def split: error.splits option.splits)
next
  fix T' t assume "T' \<noteq> T"
  then show "Error_Is h T e (ZErr T' t) = Inr False"
    by (simp add: Error_Is_def)
next
  fix f show "Error_Is (set_causes f h) T e target = Error_Is h T e target"
    by (auto simp: Error_Is_def set_causes_def split: error.splits option.splits)
qed

theorem Is_same_type_same_code_witness:
  "identity_store 1 =
     Some \<lparr>code = ''not_found'', wrappedErr = Nil, tags = [], data = [], stack = None\<rparr> \<and>
   identity_store 2 \<noteq> None \<and>
   Error_Is identity_store ''domainErr'' 1 (ZErr ''domainErr'' 2) = Inr True \<and>
   Error_Is identity_store ''domainErr'' 1 (ZErr ''dbErr'' 2) = Inr False \<and>
   Error_Unwrap identity_store 0 = Inr (ZErr ''domainErr'' 1) \<and>
   Error_Is identity_store ''domainErr'' 0 (ZErr ''domainErr'' 2) = Inr False"
proof -
  let ?n1 = "\<lparr>code = ''not_found'', wrappedErr = Nil, tags = [], data = [], stack = None\<rparr>"
  have n1: "identity_store 1 = Some ?n1" and n2: "identity_store 2 = Some ?n1"
    by (simp_all add: identity_store_def)
  have t: "\<forall>t. ZErr ''domainErr'' 2 = ZErr ''domainErr'' t \<longrightarrow> identity_store t \<noteq> None"
    using n2 by simp
  from Is_same_type_same_code[of identity_store 1 ?n1 "ZErr ''domainErr'' 2" "''domainErr''"]
    n1 t
  have "Error_Is identity_store ''domainErr'' 1 (ZErr ''domainErr'' 2)
          = Inr (\<exists>t m. ZErr ''domainErr'' 2 = ZErr ''domainErr'' t \<and>
                       identity_store t = Some m \<and> code m = code ?n1)"
   and "Error_Is identity_store ''domainErr'' 1 (ZErr ''dbErr'' 2) = Inr False"
    by simp_all
  with n1 n2 show ?thesis
    by (simp add: Error_Unwrap_def Error_Is_def identity_store_def)
qed

text \<open>
  C6.  \<^verbatim>\<open>Get\<close> on a live node looks the key up in the node's own data map: the value
  and \<^verbatim>\<open>true\<close> when the key is there, nil and \<^verbatim>\<open>false\<close> when it is not.  Attaching a
  cause brings no key to the wrapper, and a key stored on another node is not
  seen; the wrapper of the test's chain does not find the key \<open>req_id\<close> of its
  cause.
\<close>

theorem Get_own_data_only:
  assumes "h e = Some n"
  shows "Error_Get h e key =
           (case map_of (data n) key of
              Some v \<Rightarrow> Inr (v, True)
            | None \<Rightarrow> Inr (AnyNil, False)) \<and>
         (\<forall>c h'. Error_WithError h e c = Inr h' \<longrightarrow> Error_Get h' e key = Error_Get h e key) \<and>
         (\<forall>w k v h'. w \<noteq> e \<and> Error_With h w k v = Inr h'
            \<longrightarrow> Error_Get h' e key = Error_Get h e key)"
proof (intro conjI allI impI)
  show "Error_Get h e key =
          (case map_of (data n) key of Some v \<Rightarrow> Inr (v, True) | None \<Rightarrow> Inr (AnyNil, False))"
    using assms by (simp add: Error_Get_def split: option.splits)
next
  fix c h' assume "Error_WithError h e c = Inr h'"
  with assms show "Error_Get h' e key = Error_Get h e key"
    by (auto simp: Error_Get_def Error_WithError_def Error_GetTags_def Error_Tags_def Let_def
        split: option.splits error.splits sum.splits if_splits)
next
  fix w k v h' assume "w \<noteq> e \<and> Error_With h w k v = Inr h'"
  with assms show "Error_Get h' e key = Error_Get h e key"
    by (auto simp: Error_Get_def Error_With_def split: option.splits)
qed

theorem Get_own_data_only_witness:
  "creation_store 0 =
     Some \<lparr>code = ''not_found'', wrappedErr = ZErr ''dbErr'' 1, tags = [],
           data = [(''user_id'', AnyInt 123), (''trace'', AnyString ''1234'')],
           stack = None\<rparr> \<and>
   Error_Get creation_store 0 ''user_id'' = Inr (AnyInt 123, True) \<and>
   Error_Get creation_store 0 ''req_id'' = Inr (AnyNil, False) \<and>
   Error_Get creation_store 1 ''req_id'' = Inr (AnyInt 10, True)"
proof -
  let ?n0 = "\<lparr>code = ''not_found'', wrappedErr = ZErr ''dbErr'' 1, tags = [],
           data = [(''user_id'', AnyInt 123), (''trace'', AnyString ''1234'')],
           stack = None\<rparr>"
  have n0: "creation_store 0 = Some ?n0"
    by (simp add: creation_store_def)
  from Get_own_data_only[of creation_store 0 ?n0 "''user_id''"] n0
  have 1: "Error_Get creation_store 0 ''user_id'' = Inr (AnyInt 123, True)" by simp
  from Get_own_data_only[of creation_store 0 ?n0 "''req_id''"] n0
  have 2: "Error_Get creation_store 0 ''req_id'' = Inr (AnyNil, False)" by simp
  have 3: "Error_Get creation_store 1 ''req_id'' = Inr (AnyInt 10, True)"
    by (simp add: Error_Get_def creation_store_def)
  from n0 1 2 3 show ?thesis by simp
qed

text \<open>
  C7.  On a finite chain \<^verbatim>\<open>LogValue\<close> of a live node returns a group whose keys are
  distinct and which holds: under \<open>code\<close> the code as a string; under \<open>error\<close> the
  string \<^verbatim>\<open>Error()\<close> returns; under \<open>tags\<close> the tags, and no such key exactly when
  the tag set is empty; under \<open>stack\<close> the rendered stack, and no such key exactly
  when no stack was captured; under \<open>data\<close> the group \<^verbatim>\<open>slog\<close> makes of the node's own
  data, and no such key exactly when that group is empty, which it is when the
  data map is empty or every value of it is an empty group (when no value is an
  empty group: exactly when the data map is empty); under \<open>wrapped\<close> what \<^verbatim>\<open>LogValue\<close>
  of the cause returns when the cause is a node, for a foreign cause with the
  method \<^verbatim>\<open>LogValue\<close> the value that method returns unless it is an empty group
  (then there is no such key), for any other foreign cause its message, and no
  such key when there is no cause.
\<close>

theorem LogValue_projection:
  assumes "chain h (ZErr T e) ls" and "h e = Some n"
  shows "\<exists>as msg. Error_LogValue F h T e = Some (Inr (GroupValue as)) \<and>
    Error_Error F h T e = Some (Inr msg) \<and>
    distinct (map fst as) \<and>
    map_of as ''code'' = Some (StringValue (code n)) \<and>
    map_of as ''error'' = Some (StringValue msg) \<and>
    map_of as ''data'' =
      (if list_all (\<lambda>(k, v). isEmptyGroup (slog_AnyValue v)) (data n) then None
       else Some (GroupValue (filter (\<lambda>a. \<not> isEmptyGroup (snd a))
                     (map (\<lambda>(k, v). (k, slog_AnyValue v)) (data n))))) \<and>
    (list_all (\<lambda>(k, v). \<not> isEmptyGroup (slog_AnyValue v)) (data n)
       \<longrightarrow> (map_of as ''data'' = None) = (data n = [])) \<and>
    map_of as ''tags'' =
      (if tags n = [] then None else Some (AnyValue (AnyStrings (tags n)))) \<and>
    map_of as ''stack'' =
      (case stack n of None \<Rightarrow> None | Some st \<Rightarrow> Some (StringValue (stack_String st))) \<and>
    (case wrappedErr n of
       Nil \<Rightarrow> map_of as ''wrapped'' = None
     | Foreign m ts None c \<Rightarrow> map_of as ''wrapped'' = Some (StringValue m)
     | Foreign m ts (Some v) c \<Rightarrow>
         map_of as ''wrapped'' = (if isEmptyGroup v then None else Some v)
     | ZErr T' w \<Rightarrow>
         \<exists>v. Error_LogValue F h T' w = Some (Inr v) \<and> map_of as ''wrapped'' = Some v)"
proof -
  from Error_LogValue_chain[OF assms(1) refl, of F] assms(2) obtain msg W where
    msg: "Error_Error F h T e = Some (Inr msg)" and
    lv: "Error_LogValue F h T e
           = Some (Inr (slog_GroupValue (base_attrs n msg @ W @ stack_attrs n)))" and
    W: "case wrappedErr n of
        Nil \<Rightarrow> W = []
      | Foreign m ts None c \<Rightarrow> W = [(''wrapped'', StringValue m)]
      | Foreign m ts (Some v) c \<Rightarrow> W = [(''wrapped'', v)]
      | ZErr T' w \<Rightarrow>
          \<exists>v. Error_LogValue F h T' w = Some (Inr v) \<and> \<not> isEmptyGroup v \<and>
              W = [(''wrapped'', v)]"
    by auto
  define K where "K = filter (\<lambda>a. \<not> isEmptyGroup (snd a)) W"
  define D where "D = (if list_all (\<lambda>(k, v). isEmptyGroup (slog_AnyValue v)) (data n) then []
        else [slog_Group ''data'' (data n)])"
  define G where "G = (if tags n = [] then [] else [(''tags'', AnyValue (AnyStrings (tags n)))])"
  define S where "S = (case stack n of None \<Rightarrow> []
        | Some st \<Rightarrow> [(''stack'', StringValue (stack_String st))])"
  let ?as = "[(''code'', StringValue (code n)), (''error'', StringValue msg)] @ D @ G @ K @ S"
  have as: "slog_GroupValue (base_attrs n msg @ W @ stack_attrs n) = GroupValue ?as"
    by (simp add: slog_GroupValue_def kept_base_attrs kept_stack_attrs K_def D_def G_def S_def)
  have K: "case wrappedErr n of
        Nil \<Rightarrow> K = []
      | Foreign m ts None c \<Rightarrow> K = [(''wrapped'', StringValue m)]
      | Foreign m ts (Some v) c \<Rightarrow> K = (if isEmptyGroup v then [] else [(''wrapped'', v)])
      | ZErr T' w \<Rightarrow>
          \<exists>v. Error_LogValue F h T' w = Some (Inr v) \<and> K = [(''wrapped'', v)]"
    using W by (auto simp: K_def split: error.splits option.splits)
  have Kk: "map fst K = [] \<or> map fst K = [''wrapped'']"
    using K by (auto split: error.splits option.splits if_splits)
  have Dk: "map fst D = [] \<or> map fst D = [''data'']"
    by (simp add: D_def slog_Group_def)
  have Gk: "map fst G = [] \<or> map fst G = [''tags'']"
    by (simp add: G_def)
  have Sk: "map fst S = [] \<or> map fst S = [''stack'']"
    by (simp add: S_def split: option.splits)
  have d: "distinct (map fst ?as)"
    using Dk Gk Kk Sk by auto
  have Do: "map_of D k = None" if "k \<noteq> ''data''" for k
    using that by (simp add: D_def slog_Group_def)
  have Go: "map_of G k = None" if "k \<noteq> ''tags''" for k
    using that by (simp add: G_def)
  have Ko: "map_of K k = None" if "k \<noteq> ''wrapped''" for k
    using that K by (auto split: error.splits option.splits if_splits)
  have So: "map_of S k = None" if "k \<noteq> ''stack''" for k
    using that by (simp add: S_def split: option.splits)
  have other:
    "map_of G ''data'' = None" "map_of K ''data'' = None" "map_of S ''data'' = None"
    "map_of D ''tags'' = None" "map_of K ''tags'' = None" "map_of S ''tags'' = None"
    "map_of D ''stack'' = None" "map_of G ''stack'' = None" "map_of K ''stack'' = None"
    "map_of D ''wrapped'' = None" "map_of G ''wrapped'' = None" "map_of S ''wrapped'' = None"
    by (simp_all add: Do Go Ko So)
  have 1: "map_of ?as ''code'' = Some (StringValue (code n))"
    by simp
  have 2: "map_of ?as ''error'' = Some (StringValue msg)"
    by simp
  have 3: "map_of ?as ''data'' =
      (if list_all (\<lambda>(k, v). isEmptyGroup (slog_AnyValue v)) (data n) then None
       else Some (GroupValue (filter (\<lambda>a. \<not> isEmptyGroup (snd a))
                     (map (\<lambda>(k, v). (k, slog_AnyValue v)) (data n)))))"
    by (simp add: map_add_def other D_def slog_Group_data)
  have data_iff: "(map_of ?as ''data'' = None) = (data n = [])"
    if "list_all (\<lambda>(k, v). \<not> isEmptyGroup (slog_AnyValue v)) (data n)"
  proof (cases "data n")
    case Nil
    then show ?thesis unfolding 3 by simp
  next
    case (Cons kv kvs)
    with that have "\<not> list_all (\<lambda>(k, v). isEmptyGroup (slog_AnyValue v)) (data n)"
      by (cases kv) simp
    with Cons show ?thesis unfolding 3 by simp
  qed
  have 4: "map_of ?as ''tags'' =
      (if tags n = [] then None else Some (AnyValue (AnyStrings (tags n))))"
    by (simp add: map_add_def other G_def)
  have 5: "map_of ?as ''stack'' =
      (case stack n of None \<Rightarrow> None | Some st \<Rightarrow> Some (StringValue (stack_String st)))"
    by (simp add: map_add_def other S_def split: option.splits)
  have w: "map_of ?as ''wrapped'' = map_of K ''wrapped''"
    by (simp add: map_add_def other split: option.splits)
  have 6: "(case wrappedErr n of
       Nil \<Rightarrow> map_of ?as ''wrapped'' = None
     | Foreign m ts None c \<Rightarrow> map_of ?as ''wrapped'' = Some (StringValue m)
     | Foreign m ts (Some v) c \<Rightarrow>
         map_of ?as ''wrapped'' = (if isEmptyGroup v then None else Some v)
     | ZErr T' w \<Rightarrow>
         \<exists>v. Error_LogValue F h T' w = Some (Inr v) \<and> map_of ?as ''wrapped'' = Some v)"
    unfolding w using K
    by (auto split: error.splits option.splits if_splits)
  have lv': "Error_LogValue F h T e = Some (Inr (GroupValue ?as))"
    using lv as by simp
  show ?thesis
    apply (rule exI[of _ ?as])
    apply (rule exI[of _ msg])
    using lv' msg d 1 2 3 4 5 6 data_iff
    by (intro conjI impI; (assumption | blast))
qed


theorem LogValue_projection_witness:
  "chain log_store (ZErr ''UserServiceError'' 0)
     [ZLink ''UserServiceError'' 0
        \<lparr>code = ''user_not_found'', wrappedErr = ZErr ''DBError'' 1,
         tags = [''critical'', ''lookup'', ''database''],
         data = [(''user_id'', AnyInt 12345), (''trace_id'', AnyString ''abc-123'')],
         stack = Some \<lparr>frames = [\<lparr>frame_pc = 0, frame_file = ''main.go'',
           frame_function = ''findUser'', frame_line = 25\<rparr>]\<rparr>\<rparr>,
      ZLink ''DBError'' 1
        \<lparr>code = ''db_record_not_found'', wrappedErr = Foreign ''no rows'' None None Nil,
         tags = [''database''], data = [], stack = None\<rparr>,
      FLink ''no rows'' None None] \<and>
   (\<exists>as. Error_LogValue no_methods log_store ''UserServiceError'' 0
            = Some (Inr (GroupValue as)) \<and>
      map_of as ''code'' = Some (StringValue ''user_not_found'') \<and>
      map_of as ''error'' = Some (StringValue ''user_not_found: db_record_not_found: no rows'') \<and>
      map_of as ''data'' =
        Some (GroupValue [(''user_id'', AnyValue (AnyInt 12345)),
                          (''trace_id'', StringValue ''abc-123'')]) \<and>
      map_of as ''tags'' = Some (AnyValue (AnyStrings [''critical'', ''lookup'', ''database''])) \<and>
      map_of as ''stack'' = Some (StringValue (CHR 0x0A # ''    at main.go:25 findUser()'')) \<and>
      map_of as ''wrapped'' =
        Some (GroupValue
          [(''code'', StringValue ''db_record_not_found''),
           (''error'', StringValue ''db_record_not_found: no rows''),
           (''tags'', AnyValue (AnyStrings [''database''])),
           (''wrapped'', StringValue ''no rows'')])) \<and>
   Error_LogValue no_methods log_store ''plainErr'' 2 =
     Some (Inr (GroupValue [(''code'', StringValue ''plain''), (''error'', StringValue ''plain'')])) \<and>
   Error_LogValue no_methods log_store ''svcErr'' 3 =
     Some (Inr (GroupValue
       [(''code'', StringValue ''svc''),
        (''error'', StringValue ''svc: boom''),
        (''wrapped'', GroupValue [(''kind'', StringValue ''custom'')])]))"
proof -
  let ?n0 = "\<lparr>code = ''user_not_found'', wrappedErr = ZErr ''DBError'' 1,
         tags = [''critical'', ''lookup'', ''database''],
         data = [(''user_id'', AnyInt 12345), (''trace_id'', AnyString ''abc-123'')],
         stack = Some \<lparr>frames = [\<lparr>frame_pc = 0, frame_file = ''main.go'',
           frame_function = ''findUser'', frame_line = 25\<rparr>]\<rparr>\<rparr>"
  let ?n1 = "\<lparr>code = ''db_record_not_found'', wrappedErr = Foreign ''no rows'' None None Nil,
         tags = [''database''], data = [], stack = None\<rparr>"
  have n0: "log_store 0 = Some ?n0"
    by (simp add: log_store_def)
  have ch: "chain log_store (ZErr ''UserServiceError'' 0)
     [ZLink ''UserServiceError'' 0 ?n0, ZLink ''DBError'' 1 ?n1, FLink ''no rows'' None None]"
    by (simp add: chain.intros log_store_def)
  have msg: "Error_Error no_methods log_store ''UserServiceError'' 0
               = Some (Inr ''user_not_found: db_record_not_found: no rows'')"
    by (simp add: Error_Error.simps log_store_def fmt_s_def no_methods_def)
  have inner: "Error_LogValue no_methods log_store ''DBError'' 1 =
     Some (Inr (GroupValue
          [(''code'', StringValue ''db_record_not_found''),
           (''error'', StringValue ''db_record_not_found: no rows''),
           (''tags'', AnyValue (AnyStrings [''database''])),
           (''wrapped'', StringValue ''no rows'')]))"
    by (simp add: Error_LogValue.simps Error_Error.simps log_store_def base_attrs_def
        stack_attrs_def slog_GroupValue_def slog_String_def slog_Any_def hashset_Empty_def
        hashset_Values_def fmt_s_def no_methods_def)
  have st: "stack_String \<lparr>frames = [\<lparr>frame_pc = 0, frame_file = ''main.go'',
           frame_function = ''findUser'', frame_line = 25\<rparr>]\<rparr>
         = CHR 0x0A # ''    at main.go:25 findUser()''"
    by (simp add: stack_String_def stackFrame_String_def fmt_d_def fmt_nat.simps)
  from LogValue_projection[OF ch n0, of no_methods] obtain as where
    "Error_LogValue no_methods log_store ''UserServiceError'' 0 = Some (Inr (GroupValue as))"
    "map_of as ''code'' = Some (StringValue ''user_not_found'')"
    "map_of as ''error'' = Some (StringValue ''user_not_found: db_record_not_found: no rows'')"
    "map_of as ''data'' =
        Some (GroupValue [(''user_id'', AnyValue (AnyInt 12345)),
                          (''trace_id'', StringValue ''abc-123'')])"
    "map_of as ''tags'' = Some (AnyValue (AnyStrings [''critical'', ''lookup'', ''database'']))"
    "map_of as ''stack'' = Some (StringValue (CHR 0x0A # ''    at main.go:25 findUser()''))"
    "map_of as ''wrapped'' =
        Some (GroupValue
          [(''code'', StringValue ''db_record_not_found''),
           (''error'', StringValue ''db_record_not_found: no rows''),
           (''tags'', AnyValue (AnyStrings [''database''])),
           (''wrapped'', StringValue ''no rows'')])"
    using msg inner st by auto
  moreover have "Error_LogValue no_methods log_store ''plainErr'' 2 =
     Some (Inr (GroupValue [(''code'', StringValue ''plain''), (''error'', StringValue ''plain'')]))"
    by (simp add: Error_LogValue.simps Error_Error.simps log_store_def base_attrs_def
        stack_attrs_def slog_GroupValue_def slog_String_def hashset_Empty_def)
  moreover have "Error_LogValue no_methods log_store ''svcErr'' 3 =
     Some (Inr (GroupValue
       [(''code'', StringValue ''svc''),
        (''error'', StringValue ''svc: boom''),
        (''wrapped'', GroupValue [(''kind'', StringValue ''custom'')])]))"
    by (simp add: Error_LogValue.simps Error_Error.simps log_store_def base_attrs_def
        stack_attrs_def slog_GroupValue_def slog_Group_def slog_String_def slog_Any_def
        hashset_Empty_def fmt_s_def no_methods_def)
  ultimately show ?thesis using ch by blast
qed

text \<open>
  C7, as the claim is written: the data group is to be left out exactly when the
  data map is empty, and a cause that has the method \<^verbatim>\<open>LogValue\<close> is to appear
  under \<open>wrapped\<close>.  A node whose data map holds the one key \<open>k\<close> with an empty slice
  \<^verbatim>\<open>[]slog.Attr{}\<close> projects without \<open>data\<close>, and a node whose cause returns an empty
  group from \<^verbatim>\<open>LogValue\<close> projects without \<open>wrapped\<close>: \<^verbatim>\<open>slog.GroupValue\<close> drops empty
  groups.
\<close>

theorem LogValue_drops_empty_groups:
  "(case Error_With (New Map.empty 0 ''c'' None) 0 ''k'' (AnyAttrs []) of
      Inl p \<Rightarrow> False
    | Inr h \<Rightarrow>
        Error_Get h 0 ''k'' = Inr (AnyAttrs [], True) \<and>
        Error_LogValue no_methods h ''codeErr'' 0 =
          Some (Inr (GroupValue
            [(''code'', StringValue ''c''), (''error'', StringValue ''c'')]))) \<and>
   (case Error_WithError (New Map.empty 0 ''c'' None) 0
           (Foreign ''boom'' None (Some (GroupValue [])) Nil) of
      Inl p \<Rightarrow> False
    | Inr h \<Rightarrow>
        Error_Unwrap h 0 = Inr (Foreign ''boom'' None (Some (GroupValue [])) Nil) \<and>
        Error_LogValue no_methods h ''codeErr'' 0 =
          Some (Inr (GroupValue
            [(''code'', StringValue ''c''), (''error'', StringValue ''c: boom'')])))"
  by (simp add: New_def Error_With_def Error_WithError_def Error_Get_def Error_Unwrap_def
      Error_LogValue.simps Error_Error.simps base_attrs_def stack_attrs_def slog_GroupValue_def
      slog_Group_def slog_String_def slog_Any_def hashset_Empty_def fmt_s_def no_methods_def)

text \<open>
  C8.  Over any sequence of calls that change the store (\<^verbatim>\<open>New\<close>, \<^verbatim>\<open>Tags\<close>, \<^verbatim>\<open>With\<close>,
  \<^verbatim>\<open>WithError\<close>, \<^verbatim>\<open>Errorf\<close>; the query methods change nothing), every node that was
  live before is live afterwards and still has every tag it had.
\<close>

theorem tags_never_shrink:
  assumes "call\<^sup>*\<^sup>* h h'" and "h p = Some n"
  shows "\<exists>n'. h' p = Some n' \<and> set (tags n) \<subseteq> set (tags n')"
proof -
  from assms(1) have "tags_kept h h'"
    by (induction rule: rtranclp_induct)
       (auto intro: tags_kept_refl tags_kept_trans call_tags_kept)
  with assms(2) show ?thesis by (simp add: tags_kept_def)
qed

theorem tags_never_shrink_witness:
  "tags_store 1 =
     Some \<lparr>code = ''not_found'', wrappedErr = Nil, tags = [''iam'', ''authz''], data = [],
           stack = None\<rparr> \<and>
   (\<exists>h1 h2 n'.
      Error_WithError tags_store 1 (ZErr ''anotherErr'' 0) = Inr h1 \<and>
      Error_Errorf h1 1 ''denied'' Nil = Inr h2 \<and>
      call\<^sup>*\<^sup>* tags_store h2 \<and>
      h2 1 = Some n' \<and>
      tags n' = [''iam'', ''authz'', ''permission''] \<and>
      set [''iam'', ''authz''] \<subseteq> set (tags n'))"
proof -
  let ?n1 = "\<lparr>code = ''not_found'', wrappedErr = Nil, tags = [''iam'', ''authz''], data = [],
              stack = None\<rparr>"
  let ?h1 = "tags_store(1 \<mapsto> ?n1\<lparr>wrappedErr := ZErr ''anotherErr'' 0,
                      tags := [''iam'', ''authz'', ''permission'']\<rparr>)"
  let ?h2 = "?h1(1 \<mapsto> ?n1\<lparr>wrappedErr := Foreign ''denied'' None None Nil,
                      tags := [''iam'', ''authz'', ''permission'']\<rparr>)"
  have n1: "tags_store 1 = Some ?n1"
    by (simp add: tags_store_def)
  have s1: "Error_WithError tags_store 1 (ZErr ''anotherErr'' 0) = Inr ?h1"
    by (simp add: Error_WithError_def Error_GetTags_def Error_Tags_def hashset_Values_def
        tags_store_def)
  have s2: "Error_Errorf ?h1 1 ''denied'' Nil = Inr ?h2"
    by (simp add: Error_Errorf_def fmt_Errorf_def)
  have "call tags_store ?h1" using s1 by (rule call_WithError)
  moreover have "call ?h1 ?h2" using s2 by (rule call_Errorf)
  ultimately have steps: "call\<^sup>*\<^sup>* tags_store ?h2" by simp
  from tags_never_shrink[OF steps n1] obtain n' where
    n': "?h2 1 = Some n'" and sub: "set (tags ?n1) \<subseteq> set (tags n')" by blast
  from n' have "tags n' = [''iam'', ''authz'', ''permission'']" by auto
  with n1 s1 s2 steps n' sub show ?thesis by (simp del: fun_upd_apply)
qed

text \<open>
  C9.  \<^verbatim>\<open>WithError\<close> on a live node with the nil interface value as the cause returns
  without a panic.  It changes only that node: the cause becomes nil, whatever it
  was, and the tags stay as they are.  Afterwards \<^verbatim>\<open>Unwrap\<close> returns nil and
  \<^verbatim>\<open>Error()\<close> the code alone.
\<close>

theorem WithError_nil:
  assumes "h e = Some n"
  shows "\<exists>h'. Error_WithError h e Nil = Inr h' \<and>
           Error_Unwrap h' e = Inr Nil \<and>
           Error_Error F h' T e = Some (Inr (code n)) \<and>
           Error_GetTags h' e = Error_GetTags h e \<and>
           (\<forall>p. p \<noteq> e \<longrightarrow> h' p = h p)"
proof -
  let ?h' = "h(e \<mapsto> n\<lparr>wrappedErr := Nil\<rparr>)"
  have "Error_WithError h e Nil = Inr ?h'"
    using assms by (simp add: Error_WithError_def)
  moreover have "Error_Unwrap ?h' e = Inr Nil"
    by (simp add: Error_Unwrap_def)
  moreover have "Error_Error F ?h' T e = Some (Inr (code n))"
    by (subst Error_Error.simps) simp
  moreover have "Error_GetTags ?h' e = Error_GetTags h e"
    using assms by (simp add: Error_GetTags_def)
  ultimately show ?thesis by auto
qed

theorem WithError_nil_witness:
  "log_store 1 =
     Some \<lparr>code = ''db_record_not_found'', wrappedErr = Foreign ''no rows'' None None Nil,
           tags = [''database''], data = [], stack = None\<rparr> \<and>
   Error_Unwrap log_store 1 = Inr (Foreign ''no rows'' None None Nil) \<and>
   (\<exists>h'. Error_WithError log_store 1 Nil = Inr h' \<and>
      Error_Unwrap h' 1 = Inr Nil \<and>
      Error_Error no_methods h' ''DBError'' 1 = Some (Inr ''db_record_not_found'') \<and>
      Error_GetTags h' 1 = Inr [''database''])"
proof -
  let ?n1 = "\<lparr>code = ''db_record_not_found'', wrappedErr = Foreign ''no rows'' None None Nil,
         tags = [''database''], data = [], stack = None\<rparr>"
  have n1: "log_store 1 = Some ?n1"
    by (simp add: log_store_def)
  have tg: "Error_GetTags log_store 1 = Inr [''database'']"
    by (simp add: Error_GetTags_def hashset_Values_def log_store_def)
  have uw: "Error_Unwrap log_store 1 = Inr (Foreign ''no rows'' None None Nil)"
    by (simp add: Error_Unwrap_def log_store_def)
  from WithError_nil[where h = log_store and e = 1 and n = ?n1 and F = no_methods
      and T = "''DBError''"] n1 tg
  obtain h' where
    "Error_WithError log_store 1 Nil = Inr h'" "Error_Unwrap h' 1 = Inr Nil"
    "Error_Error no_methods h' ''DBError'' 1 = Some (Inr ''db_record_not_found'')"
    "Error_GetTags h' 1 = Inr [''database'']"
    by auto
  with n1 uw show ?thesis by blast
qed

text \<open>
  C10.  \<^verbatim>\<open>HasTags\<close> with no argument returns \<^verbatim>\<open>true\<close> on every live node, also on one
  without tags.
\<close>

theorem HasTags_no_arguments:
  "h e = Some n \<Longrightarrow> Error_HasTags h e [] = Inr True"
  by (simp add: Error_HasTags_def)

theorem HasTags_no_arguments_witness:
  "New Map.empty 0 ''not_found'' None 0 =
     Some \<lparr>code = ''not_found'', wrappedErr = Nil, tags = [], data = [], stack = None\<rparr> \<and>
   Error_HasTags (New Map.empty 0 ''not_found'' None) 0 [] = Inr True"
proof -
  have n: "New Map.empty 0 ''not_found'' None 0 =
     Some \<lparr>code = ''not_found'', wrappedErr = Nil, tags = [], data = [], stack = None\<rparr>"
    by (simp add: New_def)
  from HasTags_no_arguments[of "New Map.empty 0 ''not_found'' None" 0
      "\<lparr>code = ''not_found'', wrappedErr = Nil, tags = [], data = [], stack = None\<rparr>"] n
  show ?thesis by simp
qed

end
